theory Spec2Isabelle
  imports Main
begin

section \<open>JavaScript strings and numbers\<close>

text \<open>
  A JavaScript string is a sequence of UTF-16 code units; \<open>length\<close>, \<open>trim\<close>,
  \<open>includes\<close> and regular expressions without the \<open>u\<close> flag all work on code units.
  A code unit is modelled by its number. \<open>js\<close> turns an ASCII literal into such a string.
\<close>

type_synonym jsstring = "nat list"

definition js :: "string \<Rightarrow> jsstring" where
  "js s = map of_char s"

text \<open>
  The characters removed by \<open>String.prototype.trim\<close>, skipped by \<open>parseInt\<close> and matched
  by \<open>\s\<close>: ECMAScript's WhiteSpace and LineTerminator code points.
\<close>

definition isWhiteSpace :: "nat \<Rightarrow> bool" where
  "isWhiteSpace c \<longleftrightarrow>
     c \<in> set [0x09, 0x0A, 0x0B, 0x0C, 0x0D, 0x20, 0xA0, 0x1680]
     \<or> (0x2000 \<le> c \<and> c \<le> 0x200A)
     \<or> c \<in> set [0x2028, 0x2029, 0x202F, 0x205F, 0x3000, 0xFEFF]"

definition trim :: "jsstring \<Rightarrow> jsstring" where
  "trim s = rev (dropWhile isWhiteSpace (rev (dropWhile isWhiteSpace s)))"

fun startsWith :: "jsstring \<Rightarrow> jsstring \<Rightarrow> bool" where
  "startsWith s [] = True"
| "startsWith [] (p # ps) = False"
| "startsWith (c # cs) (p # ps) = (c = p \<and> startsWith cs ps)"

text \<open>\<open>hay.includes(needle)\<close>: the needle occurs at some position of the haystack.\<close>

fun includesStr :: "jsstring \<Rightarrow> jsstring \<Rightarrow> bool" where
  "includesStr [] needle = (needle = [])"
| "includesStr (c # cs) needle = (startsWith (c # cs) needle \<or> includesStr cs needle)"

text \<open>
  A JavaScript number is a double. The script only counts with it, so a number is
  modelled as \<open>NaN\<close> or an integer; the model is exact for integers of magnitude up to
  \<open>2^53\<close>, where every integer is a double. \<open>-0\<close> is identified with \<open>0\<close>: the script
  only increments, prints and compares its numbers, and the two agree there.
\<close>

datatype jsnum = NaN | Num int

text \<open>\<open>count++\<close>: the successor of \<open>2^53\<close> is not a double and rounds back to \<open>2^53\<close>.\<close>

fun increment :: "jsnum \<Rightarrow> jsnum" where
  "increment NaN = NaN"
| "increment (Num n) = Num (if n < 2 ^ 53 then n + 1 else n)"

text \<open>\<open>a <= b\<close> on numbers: every comparison with \<open>NaN\<close> is false.\<close>

fun numLe :: "jsnum \<Rightarrow> jsnum \<Rightarrow> bool" where
  "numLe (Num a) (Num b) = (a \<le> b)"
| "numLe _ _ = False"

text \<open>\<open>String(n)\<close> for an integer below \<open>10^21\<close> in magnitude is its decimal numeral.\<close>

fun decimal :: "nat \<Rightarrow> jsstring" where
  "decimal n = (if n < 10 then [48 + n] else decimal (n div 10) @ [48 + n mod 10])"

declare decimal.simps [simp del]

fun numToString :: "jsnum \<Rightarrow> jsstring" where
  "numToString NaN = js ''NaN''"
| "numToString (Num n) = (if n < 0 then 45 # decimal (nat (- n)) else decimal (nat n))"

text \<open>
  \<open>parseInt(string)\<close> with no radix argument: skip leading white space, read an optional
  sign, switch to radix 16 after a \<open>0x\<close> or \<open>0X\<close> prefix, read the longest prefix of
  digits; no digit at all gives \<open>NaN\<close>.
\<close>

definition digitValue :: "nat \<Rightarrow> nat option" where
  "digitValue c =
     (if 48 \<le> c \<and> c \<le> 57 then Some (c - 48)
      else if 97 \<le> c \<and> c \<le> 122 then Some (c - 97 + 10)
      else if 65 \<le> c \<and> c \<le> 90 then Some (c - 65 + 10)
      else None)"

definition isRadixDigit :: "nat \<Rightarrow> nat \<Rightarrow> bool" where
  "isRadixDigit R c = (case digitValue c of None \<Rightarrow> False | Some d \<Rightarrow> d < R)"

definition digitsValue :: "nat \<Rightarrow> jsstring \<Rightarrow> nat" where
  "digitsValue R Z =
     foldl (\<lambda>acc c. acc * R + (case digitValue c of None \<Rightarrow> 0 | Some d \<Rightarrow> d)) 0 Z"

definition parseInt :: "jsstring \<Rightarrow> jsnum" where
  "parseInt str =
     (let S = dropWhile isWhiteSpace str;
          sign = (if startsWith S (js ''-'') then - 1 else 1);
          S1 = (if startsWith S (js ''+'') \<or> startsWith S (js ''-'') then drop 1 S else S);
          hex = (startsWith S1 (js ''0x'') \<or> startsWith S1 (js ''0X''));
          R = (if hex then 16 else 10);
          S2 = (if hex then drop 2 S1 else S1);
          Z = takeWhile (isRadixDigit R) S2
      in if Z = [] then NaN else Num (sign * int (digitsValue R Z)))"

section \<open>The persisted key-value store\<close>

text \<open>
  \<open>localStorage\<close>, restricted to the keys the script uses. A field is \<open>None\<close> when
  \<open>getItem\<close> gives \<open>null\<close>; \<open>removeItem\<close> sets it to \<open>None\<close>. The text under
  \<open>contactMessages\<close> is always written by \<open>JSON.stringify\<close> and read back by
  \<open>JSON.parse\<close>, and the numbers, strings, booleans and \<open>null\<close> of a message
  survive that round trip; the text is represented by the array of messages it encodes.
  The \<open>id\<close> of a message is \<open>Date.now()\<close>, a number of milliseconds; its phone is
  \<open>None\<close> for \<open>null\<close>.
\<close>

record message =
  msgId :: int
  msgName :: jsstring
  msgEmail :: jsstring
  msgPhone :: "jsstring option"
  msgSubject :: jsstring
  msgMessage :: jsstring
  msgDate :: jsstring
  msgRead :: bool

record storage =
  theme :: "jsstring option"
  clockFormat :: "jsstring option"
  visitCount :: "jsstring option"
  lastVisit :: "jsstring option"
  contactMessages :: "message list option"

definition emptyStorage :: storage where
  "emptyStorage = \<lparr>theme = None, clockFormat = None, visitCount = None,
     lastVisit = None, contactMessages = None\<rparr>"

section \<open>Visit counter\<close>

text \<open>\<open>count ? parseInt(count) : 0\<close>: \<open>null\<close> and the empty string are falsy.\<close>

definition getVisitCount :: "storage \<Rightarrow> jsnum" where
  "getVisitCount st =
     (case visitCount st of
        None \<Rightarrow> Num 0
      | Some count \<Rightarrow> if count = [] then Num 0 else parseInt count)"

text \<open>\<open>now\<close> is the value of \<open>new Date().toISOString()\<close> at the call.\<close>

definition incrementVisitCount :: "jsstring \<Rightarrow> storage \<Rightarrow> jsnum \<times> storage" where
  "incrementVisitCount now st =
     (let count = increment (getVisitCount st);
          st1 = st\<lparr>visitCount := Some (numToString count)\<rparr>;
          st2 = st1\<lparr>lastVisit := Some now\<rparr>
      in (count, st2))"

text \<open>
  \<open>confirmed\<close> is the answer of \<open>window.confirm\<close>. The refreshed displays and the
  alert that follow the removal write nothing to the store and are left out.
\<close>

definition resetVisitCounter :: "bool \<Rightarrow> storage \<Rightarrow> storage" where
  "resetVisitCounter confirmed st =
     (if \<not> confirmed then st
      else st\<lparr>visitCount := None, lastVisit := None\<rparr>)"

section \<open>Clock\<close>

text \<open>\<open>s.padStart(n, c)\<close> with a one-character pad string.\<close>

definition padStart :: "nat \<Rightarrow> nat \<Rightarrow> jsstring \<Rightarrow> jsstring" where
  "padStart n c s = (if n \<le> length s then s else replicate (n - length s) c @ s)"

text \<open>
  The three time displays of the page: the \<open>textContent\<close> of the elements \<open>hours\<close>,
  \<open>minutes\<close> and \<open>seconds\<close>, \<open>None\<close> for an element the page does not have.
\<close>

record clockDisplay =
  hoursEl :: "jsstring option"
  minutesEl :: "jsstring option"
  secondsEl :: "jsstring option"

text \<open>
  \<open>updateClock\<close>, with the flag \<open>is24Hour\<close> and the readings \<open>getHours()\<close>,
  \<open>getMinutes()\<close>, \<open>getSeconds()\<close> of the current time as arguments. The date line,
  which the locale formats, is left out.
\<close>

definition updateClock :: "bool \<Rightarrow> nat \<Rightarrow> nat \<Rightarrow> nat \<Rightarrow> clockDisplay \<Rightarrow> clockDisplay" where
  "updateClock is24Hour h m s d =
     (let hours = (if \<not> is24Hour then (if h mod 12 = 0 then 12 else h mod 12) else h);
          hoursT = padStart 2 48 (decimal hours);
          minutesT = padStart 2 48 (decimal m);
          secondsT = padStart 2 48 (decimal s)
      in \<lparr>hoursEl = map_option (\<lambda>_. hoursT) (hoursEl d),
          minutesEl = map_option (\<lambda>_. minutesT) (minutesEl d),
          secondsEl = map_option (\<lambda>_. secondsT) (secondsEl d)\<rparr>)"

section \<open>Regular expressions\<close>

text \<open>
  The patterns of the validation rules use character classes, concatenation, \<open>?\<close>,
  \<open>+\<close> and \<open>{n}\<close>, and each is anchored by \<open>^\<close> and \<open>$\<close>, without flags. For such a
  pattern \<open>pattern.test(value)\<close> holds exactly when the whole value is a word of the
  pattern's language; \<open>test\<close> decides that by derivatives.
\<close>

datatype rexp =
  Zero
| One
| Atom "nat \<Rightarrow> bool"
| Alt rexp rexp
| Seq rexp rexp
| Star rexp

definition Opt :: "rexp \<Rightarrow> rexp" where
  "Opt r = Alt r One"

definition Plus :: "rexp \<Rightarrow> rexp" where
  "Plus r = Seq r (Star r)"

fun Times :: "nat \<Rightarrow> rexp \<Rightarrow> rexp" where
  "Times 0 r = One"
| "Times (Suc n) r = Seq r (Times n r)"

definition Chr :: "nat \<Rightarrow> rexp" where
  "Chr c = Atom (\<lambda>x. x = c)"

fun Lit :: "jsstring \<Rightarrow> rexp" where
  "Lit [] = One"
| "Lit (c # cs) = Seq (Chr c) (Lit cs)"

fun nullable :: "rexp \<Rightarrow> bool" where
  "nullable Zero = False"
| "nullable One = True"
| "nullable (Atom p) = False"
| "nullable (Alt r s) = (nullable r \<or> nullable s)"
| "nullable (Seq r s) = (nullable r \<and> nullable s)"
| "nullable (Star r) = True"

fun deriv :: "nat \<Rightarrow> rexp \<Rightarrow> rexp" where
  "deriv c Zero = Zero"
| "deriv c One = Zero"
| "deriv c (Atom p) = (if p c then One else Zero)"
| "deriv c (Alt r s) = Alt (deriv c r) (deriv c s)"
| "deriv c (Seq r s) =
     (if nullable r then Alt (Seq (deriv c r) s) (deriv c s) else Seq (deriv c r) s)"
| "deriv c (Star r) = Seq (deriv c r) (Star r)"

fun test :: "rexp \<Rightarrow> jsstring \<Rightarrow> bool" where
  "test r [] = nullable r"
| "test r (c # cs) = test (deriv c r) cs"

definition inRange :: "nat \<Rightarrow> nat \<Rightarrow> nat \<Rightarrow> bool" where
  "inRange lo hi c \<longleftrightarrow> lo \<le> c \<and> c \<le> hi"

section \<open>Contact form validation\<close>

record ruleMessages =
  requiredMsg :: "jsstring option"
  minLengthMsg :: "jsstring option"
  maxLengthMsg :: "jsstring option"
  patternMsg :: "jsstring option"

text \<open>A rule the source leaves out of a field's object is \<open>False\<close> or \<open>None\<close> here.\<close>

record rules =
  required :: bool
  minLength :: "nat option"
  maxLength :: "nat option"
  pattern :: "rexp option"
  messages :: ruleMessages

text \<open>\<open>[a-zA-Z\<dots>\s]\<close> with the range from U+00C0 to U+00FF.\<close>

definition nameClass :: "nat \<Rightarrow> bool" where
  "nameClass c \<longleftrightarrow>
     inRange 97 122 c \<or> inRange 65 90 c \<or> inRange 0xC0 0xFF c \<or> isWhiteSpace c"

definition namePattern :: rexp where
  "namePattern = Plus (Atom nameClass)"

text \<open>\<open>[^\s@]\<close>\<close>

definition emailClass :: "nat \<Rightarrow> bool" where
  "emailClass c \<longleftrightarrow> \<not> (isWhiteSpace c \<or> c = 64)"

definition emailPattern :: rexp where
  "emailPattern =
     Seq (Plus (Atom emailClass))
       (Seq (Chr 64) (Seq (Plus (Atom emailClass)) (Seq (Chr 46) (Plus (Atom emailClass)))))"

definition isDigit :: "nat \<Rightarrow> bool" where
  "isDigit c \<longleftrightarrow> inRange 48 57 c"

text \<open>\<open>^(\+351\s?)?([0-9]{3}\s?){3}$\<close>\<close>

definition phonePattern :: rexp where
  "phonePattern =
     Seq (Opt (Seq (Lit (js ''+351'')) (Opt (Atom isWhiteSpace))))
       (Times 3 (Seq (Times 3 (Atom isDigit)) (Opt (Atom isWhiteSpace))))"

definition noMessages :: ruleMessages where
  "noMessages = \<lparr>requiredMsg = None, minLengthMsg = None, maxLengthMsg = None,
     patternMsg = None\<rparr>"

definition nameRules :: rules where
  "nameRules = \<lparr>required = True, minLength = Some 3, maxLength = None,
     pattern = Some namePattern,
     messages = noMessages\<lparr>
       requiredMsg := Some (js ''Por favor, introduz o teu nome''),
       minLengthMsg := Some (js ''O nome deve ter pelo menos 3 caracteres''),
       patternMsg := Some (js ''O nome s'' @ [0xF3] @ js '' pode conter letras'')\<rparr>\<rparr>"

definition emailRules :: rules where
  "emailRules = \<lparr>required = True, minLength = None, maxLength = None,
     pattern = Some emailPattern,
     messages = noMessages\<lparr>
       requiredMsg := Some (js ''Por favor, introduz o teu email''),
       patternMsg := Some (js ''Por favor, introduz um email v'' @ [0xE1] @ js ''lido'')\<rparr>\<rparr>"

definition subjectRules :: rules where
  "subjectRules = \<lparr>required = True, minLength = None, maxLength = None,
     pattern = None,
     messages = noMessages\<lparr>
       requiredMsg := Some (js ''Por favor, seleciona um assunto'')\<rparr>\<rparr>"

definition messageRules :: rules where
  "messageRules = \<lparr>required = True, minLength = Some 10, maxLength = Some 500,
     pattern = None,
     messages = noMessages\<lparr>
       requiredMsg := Some (js ''Por favor, escreve uma mensagem''),
       minLengthMsg := Some (js ''A mensagem deve ter pelo menos 10 caracteres''),
       maxLengthMsg := Some (js ''A mensagem n'' @ [0xE3]
                              @ js ''o pode ter mais de 500 caracteres'')\<rparr>\<rparr>"

definition phoneRules :: rules where
  "phoneRules = \<lparr>required = False, minLength = None, maxLength = None,
     pattern = Some phonePattern,
     messages = noMessages\<lparr>
       patternMsg := Some (js ''Formato inv'' @ [0xE1]
                            @ js ''lido. Ex: 912345678 ou +351 912 345 678'')\<rparr>\<rparr>"

text \<open>
  \<open>validationRules[fieldName]\<close>. A name that is not one of the five keys gives
  \<open>undefined\<close> or a member of \<open>Object.prototype\<close>, which has none of the rule properties;
  both make \<open>validateField\<close> return valid, and both are \<open>None\<close> here.
\<close>

definition validationRules :: "jsstring \<Rightarrow> rules option" where
  "validationRules fieldName =
     (if fieldName = js ''name'' then Some nameRules
      else if fieldName = js ''email'' then Some emailRules
      else if fieldName = js ''subject'' then Some subjectRules
      else if fieldName = js ''message'' then Some messageRules
      else if fieldName = js ''phone'' then Some phoneRules
      else None)"

record validation =
  valid :: bool
  message :: "jsstring option"

text \<open>
  \<open>validateField\<close> over a table of rules. A number is truthy when it is not \<open>0\<close>, a
  string when it is not empty, so \<open>rules.minLength && \<dots>\<close> needs a non-zero bound and
  \<open>!value.trim()\<close> means that the trimmed value is empty.
\<close>

definition validateFieldIn :: "(jsstring \<Rightarrow> rules option) \<Rightarrow> jsstring \<Rightarrow> jsstring \<Rightarrow> validation" where
  "validateFieldIn table fieldName v =
     (case table fieldName of
        None \<Rightarrow> \<lparr>valid = True, message = Some []\<rparr>
      | Some r \<Rightarrow>
          if required r \<and> trim v = [] then
            \<lparr>valid = False, message = requiredMsg (messages r)\<rparr>
          else if (case minLength r of None \<Rightarrow> False
                   | Some n \<Rightarrow> n \<noteq> 0 \<and> length (trim v) < n) then
            \<lparr>valid = False, message = minLengthMsg (messages r)\<rparr>
          else if (case maxLength r of None \<Rightarrow> False
                   | Some n \<Rightarrow> n \<noteq> 0 \<and> n < length (trim v)) then
            \<lparr>valid = False, message = maxLengthMsg (messages r)\<rparr>
          else if (case pattern r of None \<Rightarrow> False
                   | Some p \<Rightarrow> trim v \<noteq> [] \<and> \<not> test p v) then
            \<lparr>valid = False, message = patternMsg (messages r)\<rparr>
          else \<lparr>valid = True, message = Some []\<rparr>)"

definition validateField :: "jsstring \<Rightarrow> jsstring \<Rightarrow> validation" where
  "validateField = validateFieldIn validationRules"

section \<open>Project gallery\<close>

text \<open>
  The fields of a project that the cards, the filter and the search read. The fields
  shown only in the detail overlay (image, link, long description, features,
  technologies, date) are left out.
\<close>

record project =
  projId :: nat
  title :: jsstring
  category :: jsstring
  description :: jsstring
  tags :: "jsstring list"

definition projects :: "project list" where
  "projects =
     [\<lparr>projId = 1, title = js ''E-commerce Website'', category = js ''web'',
        description = js ''Loja online completa com carrinho de compras'',
        tags = [js ''HTML'', js ''CSS'', js ''JavaScript'', js ''API'']\<rparr>,
      \<lparr>projId = 2, title = js ''App de Tarefas'', category = js ''web'',
        description = js ''Gestor de tarefas com filtros e categorias'',
        tags = [js ''JavaScript'', js ''CSS'', js ''LocalStorage'']\<rparr>,
      \<lparr>projId = 3, title = js ''Portfolio Designer'', category = js ''design'',
        description = js ''Portfolio criativo para designer gr'' @ [0xE1] @ js ''fico'',
        tags = [js ''Figma'', js ''UI/UX'', js ''Prot'' @ [0xF3] @ js ''tipo'']\<rparr>,
      \<lparr>projId = 4, title = js ''App Meteorologia'', category = js ''mobile'',
        description = js ''App mobile para consultar previs'' @ [0xE3] @ js ''o do tempo'',
        tags = [js ''React Native'', js ''API'', js ''Mobile'']\<rparr>,
      \<lparr>projId = 5, title = js ''Dashboard Analytics'', category = js ''web'',
        description = js ''Dashboard com gr'' @ [0xE1] @ js ''ficos e estat'' @ [0xED]
                        @ js ''sticas'',
        tags = [js ''JavaScript'', js ''Chart.js'', js ''API'']\<rparr>,
      \<lparr>projId = 6, title = js ''Redesign Logo Empresa'', category = js ''design'',
        description = js ''Redesign de identidade visual corporativa'',
        tags = [js ''Illustrator'', js ''Branding'', js ''Logo'']\<rparr>]"

text \<open>
  The gallery's variable \<open>currentCategory\<close> and the part of the page it writes: the
  value of the search box, the cards of the grid (as the projects they show) and whether
  the no-results notice is displayed. An element the page does not have is \<open>None\<close>. The
  counts on the filter buttons and the console log are left out.
\<close>

record gallery =
  currentCategory :: jsstring
  searchInput :: "jsstring option"
  grid :: "project list option"
  noResults :: "bool option"

definition renderProjects :: "project list \<Rightarrow> gallery \<Rightarrow> gallery" where
  "renderProjects projectsToRender g =
     (case grid g of
        None \<Rightarrow> g
      | Some _ \<Rightarrow>
          if length projectsToRender = 0 then
            g\<lparr>grid := Some [], noResults := map_option (\<lambda>_. True) (noResults g)\<rparr>
          else
            g\<lparr>grid := Some projectsToRender,
              noResults := map_option (\<lambda>_. False) (noResults g)\<rparr>)"

definition filterProjects :: "jsstring \<Rightarrow> gallery \<Rightarrow> gallery" where
  "filterProjects cat g =
     (let g1 = g\<lparr>currentCategory := cat\<rparr>;
          g2 = g1\<lparr>searchInput := map_option (\<lambda>_. []) (searchInput g1)\<rparr>;
          filtered = (if cat = js ''all'' then projects
                      else filter (\<lambda>p. category p = cat) projects)
      in renderProjects filtered g2)"

text \<open>
  \<open>toLowerCase\<close> follows the case mapping of the Unicode tables of the runtime; the
  search takes it as the parameter \<open>lower\<close>. \<open>toLowerLatin1\<close> is that mapping on the
  code units of Basic Latin and Latin-1, where every string of the project list lives.
\<close>

definition toLowerLatin1 :: "jsstring \<Rightarrow> jsstring" where
  "toLowerLatin1 s =
     map (\<lambda>c. if inRange 65 90 c \<or> (inRange 0xC0 0xDE c \<and> c \<noteq> 0xD7) then c + 32 else c) s"

definition searchProjects :: "(jsstring \<Rightarrow> jsstring) \<Rightarrow> jsstring \<Rightarrow> gallery \<Rightarrow> gallery" where
  "searchProjects lower query g =
     (let term = trim (lower query) in
      if term = [] then filterProjects (currentCategory g) g
      else
        let base = (if currentCategory g = js ''all'' then projects
                    else filter (\<lambda>p. category p = currentCategory g) projects);
            results = filter (\<lambda>p.
                includesStr (lower (title p)) term
                \<or> includesStr (lower (description p)) term
                \<or> list_ex (\<lambda>tag. includesStr (lower tag) term) (tags p)) base
        in renderProjects results g)"

section \<open>Timers and debounce\<close>

text \<open>
  The timers of the event loop over a page state \<open>'a\<close>: the clock in milliseconds, the
  next timer handle, the pending timers (handle, due time, callback) in the order they
  were set, the page, and a log of the callbacks run so far (handle and due time).
  \<open>setTimeout\<close> returns the new handle; \<open>clearTimeout\<close> of \<open>undefined\<close> (\<open>None\<close>) or
  of a handle no longer pending does nothing.
\<close>

record 'a eventLoop =
  clock :: nat
  nextHandle :: nat
  pending :: "(nat \<times> nat \<times> ('a \<Rightarrow> 'a)) list"
  page :: 'a
  fired :: "(nat \<times> nat) list"

definition setTimeout :: "('a \<Rightarrow> 'a) \<Rightarrow> nat \<Rightarrow> 'a eventLoop \<Rightarrow> nat \<times> 'a eventLoop" where
  "setTimeout callback delay L =
     (nextHandle L,
      L\<lparr>pending := pending L @ [(nextHandle L, clock L + delay, callback)],
        nextHandle := nextHandle L + 1\<rparr>)"

definition clearTimeout :: "nat option \<Rightarrow> 'a eventLoop \<Rightarrow> 'a eventLoop" where
  "clearTimeout handle L =
     (case handle of
        None \<Rightarrow> L
      | Some h \<Rightarrow> L\<lparr>pending := filter (\<lambda>(i, due, callback). i \<noteq> h) (pending L)\<rparr>)"

text \<open>
  Time passes until \<open>t\<close>: the timers due by then run, earliest first and in the order
  they were set among equals; a timer never runs before it is due.
\<close>

definition runTimer :: "'a eventLoop \<Rightarrow> nat \<times> nat \<times> ('a \<Rightarrow> 'a) \<Rightarrow> 'a eventLoop" where
  "runTimer L timer =
     (case timer of (h, due, callback) \<Rightarrow>
        L\<lparr>clock := max (clock L) due, page := callback (page L),
          fired := fired L @ [(h, due)]\<rparr>)"

definition advanceTo :: "nat \<Rightarrow> 'a eventLoop \<Rightarrow> 'a eventLoop" where
  "advanceTo t L =
     (let due = sort_key (\<lambda>(h, d, callback). d) (filter (\<lambda>(h, d, callback). d \<le> t) (pending L));
          L1 = L\<lparr>pending := filter (\<lambda>(h, d, callback). \<not> d \<le> t) (pending L)\<rparr>;
          L2 = foldl runTimer L1 due
      in L2\<lparr>clock := max (clock L2) t\<rparr>)"

text \<open>
  \<open>debounce(func, delay)\<close> returns a function with the closure variable \<open>timeout\<close>;
  a call of that function takes the variable and the event loop and returns both.
\<close>

definition debounce ::
  "('b \<Rightarrow> 'a \<Rightarrow> 'a) \<Rightarrow> nat \<Rightarrow> 'b \<Rightarrow> nat option \<times> 'a eventLoop \<Rightarrow> nat option \<times> 'a eventLoop" where
  "debounce func delay args S =
     (case S of (timeout, L) \<Rightarrow>
        let L1 = clearTimeout timeout L;
            (h, L2) = setTimeout (func args) delay L1
        in (Some h, L2))"

definition debouncedSearch ::
  "(jsstring \<Rightarrow> jsstring) \<Rightarrow> jsstring \<Rightarrow> nat option \<times> gallery eventLoop
     \<Rightarrow> nat option \<times> gallery eventLoop" where
  "debouncedSearch lower = debounce (searchProjects lower) 280"

text \<open>An \<open>input\<close> event at time \<open>t\<close> with the text \<open>q\<close> in the search box.\<close>

definition inputAt ::
  "(jsstring \<Rightarrow> jsstring) \<Rightarrow> nat option \<times> gallery eventLoop \<Rightarrow> nat \<times> jsstring
     \<Rightarrow> nat option \<times> gallery eventLoop" where
  "inputAt lower S ev =
     (case ev of (t, q) \<Rightarrow> debouncedSearch lower q (fst S, advanceTo t (snd S)))"

section \<open>Contact messages\<close>

text \<open>The values \<open>formData.get\<close> gives for the five fields of the form.\<close>

record formData =
  fdName :: jsstring
  fdEmail :: jsstring
  fdPhone :: jsstring
  fdSubject :: jsstring
  fdMessage :: jsstring

text \<open>
  \<open>JSON.parse(localStorage.getItem('contactMessages')) || []\<close>: an absent key parses to
  \<open>null\<close>, which is falsy; an array is truthy even when empty.
\<close>

definition readMessages :: "storage \<Rightarrow> message list" where
  "readMessages st = (case contactMessages st of None \<Rightarrow> [] | Some ms \<Rightarrow> ms)"

text \<open>
  \<open>saveMessage\<close>; \<open>nowMs\<close> is \<open>Date.now()\<close> and \<open>nowIso\<close> is
  \<open>new Date().toISOString()\<close> at the call.
\<close>

definition saveMessage :: "int \<Rightarrow> jsstring \<Rightarrow> formData \<Rightarrow> storage \<Rightarrow> message \<times> storage" where
  "saveMessage nowMs nowIso fd st =
     (let msgs = readMessages st;
          msg = \<lparr>msgId = nowMs, msgName = fdName fd, msgEmail = fdEmail fd,
                 msgPhone = (if fdPhone fd = [] then None else Some (fdPhone fd)),
                 msgSubject = fdSubject fd, msgMessage = fdMessage fd,
                 msgDate = nowIso, msgRead = False\<rparr>
      in (msg, st\<lparr>contactMessages := Some (msg # msgs)\<rparr>))"

definition markAllAsRead :: "storage \<Rightarrow> storage" where
  "markAllAsRead st =
     st\<lparr>contactMessages := Some (map (\<lambda>m. m\<lparr>msgRead := True\<rparr>) (readMessages st))\<rparr>"

text \<open>
  \<open>confirmed\<close> is the answer of \<open>confirm\<close>. \<open>loadMessages()\<close> and the toast that
  follow a confirmed deletion only read the store and write the page; they are left out.
\<close>

definition deleteMessage :: "bool \<Rightarrow> int \<Rightarrow> storage \<Rightarrow> storage" where
  "deleteMessage confirmed i st =
     (if \<not> confirmed then st
      else st\<lparr>contactMessages := Some (filter (\<lambda>m. msgId m \<noteq> i) (readMessages st))\<rparr>)"

definition clearAllMessages :: "bool \<Rightarrow> storage \<Rightarrow> storage" where
  "clearAllMessages confirmed st =
     (if \<not> confirmed then st else st\<lparr>contactMessages := None\<rparr>)"

section \<open>The page as a state machine\<close>

text \<open>
  Everything the user can do that writes the store. \<open>PageLoad\<close> is the
  \<open>DOMContentLoaded\<close> handler, where \<open>initVisitCounter\<close> counts the visit;
  \<open>Submit\<close> is a successful submission of the form; \<open>OpenAdmin\<close> opens the admin panel,
  which marks every message as read.
\<close>

definition toggleTheme :: "bool \<Rightarrow> storage \<Rightarrow> bool \<times> storage" where
  "toggleTheme dark st =
     (let isDark = \<not> dark
      in (isDark, st\<lparr>theme := Some (if isDark then js ''dark'' else js ''light'')\<rparr>))"

definition toggleFormat :: "bool \<Rightarrow> storage \<Rightarrow> bool \<times> storage" where
  "toggleFormat is24Hour st =
     (let f = \<not> is24Hour
      in (f, st\<lparr>clockFormat := Some (if f then js ''24'' else js ''12'')\<rparr>))"

datatype action =
  PageLoad jsstring
| ResetVisits bool
| ToggleTheme bool
| ToggleFormat bool
| Submit int jsstring formData
| OpenAdmin
| DeleteMessage bool int
| ClearAll bool

fun perform :: "action \<Rightarrow> storage \<Rightarrow> storage" where
  "perform (PageLoad nowIso) st = snd (incrementVisitCount nowIso st)"
| "perform (ResetVisits confirmed) st = resetVisitCounter confirmed st"
| "perform (ToggleTheme dark) st = snd (toggleTheme dark st)"
| "perform (ToggleFormat is24Hour) st = snd (toggleFormat is24Hour st)"
| "perform (Submit nowMs nowIso fd) st = snd (saveMessage nowMs nowIso fd st)"
| "perform OpenAdmin st = markAllAsRead st"
| "perform (DeleteMessage confirmed i) st = deleteMessage confirmed i st"
| "perform (ClearAll confirmed) st = clearAllMessages confirmed st"

fun run :: "action list \<Rightarrow> storage \<Rightarrow> storage" where
  "run [] st = st"
| "run (a # as) st = run as (perform a st)"

section \<open>Notions of the specification\<close>

text \<open>A two-digit, zero-padded field: the tens digit, then the units digit.\<close>

definition twoDigits :: "nat \<Rightarrow> jsstring" where
  "twoDigits n = [48 + n div 10, 48 + n mod 10]"

text \<open>
  The count is stored as it should be: the key is absent, or it holds the decimal numeral
  (without leading zeros) of a number up to \<open>2^53\<close>.
\<close>

definition countStored :: "storage \<Rightarrow> bool" where
  "countStored st \<longleftrightarrow>
     (case visitCount st of
        None \<Rightarrow> True
      | Some s \<Rightarrow> s = decimal (digitsValue 10 s) \<and> digitsValue 10 s \<le> 2 ^ 53)"

text \<open>
  The four checks of a field in the order the specification fixes, when a check fails
  and the message it reports. A check whose rule is absent never fails.
\<close>

datatype fieldCheck = CheckRequired | CheckMinLength | CheckMaxLength | CheckPattern

definition checkOrder :: "fieldCheck list" where
  "checkOrder = [CheckRequired, CheckMinLength, CheckMaxLength, CheckPattern]"

fun checkFails :: "rules \<Rightarrow> jsstring \<Rightarrow> fieldCheck \<Rightarrow> bool" where
  "checkFails r v CheckRequired = (required r \<and> trim v = [])"
| "checkFails r v CheckMinLength =
     (case minLength r of None \<Rightarrow> False | Some n \<Rightarrow> n \<noteq> 0 \<and> length (trim v) < n)"
| "checkFails r v CheckMaxLength =
     (case maxLength r of None \<Rightarrow> False | Some n \<Rightarrow> n \<noteq> 0 \<and> n < length (trim v))"
| "checkFails r v CheckPattern =
     (case pattern r of None \<Rightarrow> False | Some p \<Rightarrow> trim v \<noteq> [] \<and> \<not> test p v)"

fun checkMessage :: "rules \<Rightarrow> fieldCheck \<Rightarrow> jsstring option" where
  "checkMessage r CheckRequired = requiredMsg (messages r)"
| "checkMessage r CheckMinLength = minLengthMsg (messages r)"
| "checkMessage r CheckMaxLength = maxLengthMsg (messages r)"
| "checkMessage r CheckPattern = patternMsg (messages r)"

definition firstFailure :: "rules \<Rightarrow> jsstring \<Rightarrow> validation" where
  "firstFailure r v =
     (case find (checkFails r v) checkOrder of
        None \<Rightarrow> \<lparr>valid = True, message = Some []\<rparr>
      | Some c \<Rightarrow> \<lparr>valid = False, message = checkMessage r c\<rparr>)"

text \<open>
  The language of a pattern: the values it matches from the first to the last character.
\<close>

definition conc :: "jsstring set \<Rightarrow> jsstring set \<Rightarrow> jsstring set" where
  "conc A B = {a @ b | a b. a \<in> A \<and> b \<in> B}"

inductive_set star :: "jsstring set \<Rightarrow> jsstring set" for A :: "jsstring set" where
  star_nil: "[] \<in> star A"
| star_app: "a \<in> A \<Longrightarrow> w \<in> star A \<Longrightarrow> a @ w \<in> star A"

fun lang :: "rexp \<Rightarrow> jsstring set" where
  "lang Zero = {}"
| "lang One = {[]}"
| "lang (Atom p) = {[c] | c. p c}"
| "lang (Alt r s) = lang r \<union> lang s"
| "lang (Seq r s) = conc (lang r) (lang s)"
| "lang (Star r) = star (lang r)"

text \<open>
  The shapes of a phone number. \<open>optSpace\<close>: nothing or one white-space character.
  \<open>phoneGroup\<close>: three digits, then nothing or one white-space character.
  \<open>countryPrefix\<close>: nothing, or \<open>+351\<close> and then nothing or one white-space character.
\<close>

definition optSpace :: "jsstring \<Rightarrow> bool" where
  "optSpace s \<longleftrightarrow> length s \<le> 1 \<and> list_all isWhiteSpace s"

definition phoneGroup :: "jsstring \<Rightarrow> bool" where
  "phoneGroup x \<longleftrightarrow> length (take 3 x) = 3 \<and> list_all isDigit (take 3 x) \<and> optSpace (drop 3 x)"

definition countryPrefix :: "jsstring \<Rightarrow> bool" where
  "countryPrefix p \<longleftrightarrow> p = [] \<or> (take 4 p = js ''+351'' \<and> optSpace (drop 4 p))"

text \<open>
  The shape \<open>+CCC NNN NNN NNN\<close> as the specification words it: an optional country code
  (a plus sign and three digits, and a space after it that may be left out), then nine
  digits in groups of three, with a space between two groups that may be left out.
\<close>

definition shapedPattern :: rexp where
  "shapedPattern =
     Seq (Opt (Seq (Chr 43) (Seq (Times 3 (Atom isDigit)) (Opt (Chr 32)))))
       (Seq (Times 3 (Atom isDigit))
         (Seq (Opt (Chr 32))
           (Seq (Times 3 (Atom isDigit))
             (Seq (Opt (Chr 32)) (Times 3 (Atom isDigit))))))"

definition phoneShaped :: "jsstring \<Rightarrow> bool" where
  "phoneShaped v = test shapedPattern v"

text \<open>
  The characters of a name as the specification words them: a letter, an accented letter
  (of Latin-1, the block the pattern's range lies in) or white space. U+00D7 and U+00F7,
  the multiplication and the division sign, are not letters.
\<close>

definition isLetter :: "nat \<Rightarrow> bool" where
  "isLetter c \<longleftrightarrow> inRange 97 122 c \<or> inRange 65 90 c"

definition isAccentedLetter :: "nat \<Rightarrow> bool" where
  "isAccentedLetter c \<longleftrightarrow> inRange 0xC0 0xFF c \<and> c \<noteq> 0xD7 \<and> c \<noteq> 0xF7"

text \<open>
  A burst of calls: each call comes no earlier than the one before and less than
  \<open>delay\<close> milliseconds after it.
\<close>

fun rapid :: "nat \<Rightarrow> nat list \<Rightarrow> bool" where
  "rapid delay [] = True"
| "rapid delay [t] = True"
| "rapid delay (t # u # ts) = (t \<le> u \<and> u < t + delay \<and> rapid delay (u # ts))"


section \<open>Properties of the clock\<close>

lemma padStart_decimal: "n < 100 \<Longrightarrow> padStart 2 48 (decimal n) = twoDigits n"
proof (cases "n < 10")
  case True
  then show ?thesis
    by (simp add: decimal.simps [of n] padStart_def twoDigits_def)
next
  case False
  assume "n < 100"
  with False have "n div 10 < 10" by simp
  then have "decimal (n div 10) = [48 + n div 10]"
    by (simp add: decimal.simps [of "n div 10"])
  with False show ?thesis
    by (simp add: decimal.simps [of n] padStart_def twoDigits_def)
qed

text \<open>
  Claim C10. In 12-hour mode the hour shown is \<open>hours % 12\<close> with \<open>0\<close> replaced by
  \<open>12\<close>: midnight (hour 0) and noon (hour 12) both show \<open>12\<close>, an hour above 12 shows
  the hour minus 12, and every other hour shows itself. In both modes each of the three
  fields the page has is written as a two-digit zero-padded string, for every time of day.
\<close>

theorem updateClock_two_digits:
  assumes "h < 24" and "m < 60" and "s < 60"
  shows "updateClock is24Hour h m s d =
           \<lparr>hoursEl = map_option (\<lambda>_. twoDigits
                (if is24Hour then h
                 else if h = 0 \<or> h = 12 then 12
                 else if 12 < h then h - 12 else h)) (hoursEl d),
            minutesEl = map_option (\<lambda>_. twoDigits m) (minutesEl d),
            secondsEl = map_option (\<lambda>_. twoDigits s) (secondsEl d)\<rparr>"
proof -
  let ?h12 = "if h mod 12 = 0 then 12 else h mod 12"
  have h12: "?h12 = (if h = 0 \<or> h = 12 then 12 else if 12 < h then h - 12 else h)"
    using assms(1) by (auto simp: mod_if)
  have "?h12 < 100" using assms(1) by (auto simp: h12)
  moreover have "h < 100" "m < 100" "s < 100" using assms by simp_all
  ultimately show ?thesis
    unfolding updateClock_def Let_def
    by (simp only: padStart_decimal h12 if_not_P if_P simp_thms split: if_split) auto
qed

theorem updateClock_two_digits_witness:
  "updateClock False 0 5 59 \<lparr>hoursEl = Some [], minutesEl = Some [], secondsEl = Some []\<rparr>
     = \<lparr>hoursEl = Some (js ''12''), minutesEl = Some (js ''05''), secondsEl = Some (js ''59'')\<rparr>
   \<and> updateClock False 12 0 0 \<lparr>hoursEl = Some [], minutesEl = None, secondsEl = Some []\<rparr>
     = \<lparr>hoursEl = Some (js ''12''), minutesEl = None, secondsEl = Some (js ''00'')\<rparr>"
  using updateClock_two_digits [of 0 5 59 False
      "\<lparr>hoursEl = Some [], minutesEl = Some [], secondsEl = Some []\<rparr>"]
    updateClock_two_digits [of 12 0 0 False
      "\<lparr>hoursEl = Some [], minutesEl = None, secondsEl = Some []\<rparr>"]
  by (simp add: twoDigits_def js_def)

section \<open>Properties of the visit counter\<close>

lemma decimal_nonempty: "decimal n \<noteq> []"
  by (subst decimal.simps) simp

lemma decimal_small: "n < 10 \<Longrightarrow> decimal n = [48 + n]"
  by (subst decimal.simps) simp

lemma decimal_digits: "c \<in> set (decimal n) \<Longrightarrow> 48 \<le> c \<and> c \<le> 57"
proof (induction n rule: decimal.induct)
  case (1 n)
  show ?case
  proof (cases "n < 10")
    case True
    with "1.prems" show ?thesis by (simp add: decimal.simps [of n])
  next
    case False
    have "n mod 10 < 10" by simp
    with False "1.prems" "1.IH" show ?thesis
      by (auto simp: decimal.simps [of n])
  qed
qed

lemma digit_not_space: "48 \<le> c \<and> c \<le> 57 \<Longrightarrow> \<not> isWhiteSpace c"
  by (auto simp: isWhiteSpace_def)

lemma digit_is_radix10: "48 \<le> c \<and> c \<le> 57 \<Longrightarrow> isRadixDigit 10 c"
  by (auto simp: isRadixDigit_def digitValue_def)

lemma digitsValue_snoc:
  "digitsValue R (Z @ [c]) =
     digitsValue R Z * R + (case digitValue c of None \<Rightarrow> 0 | Some d \<Rightarrow> d)"
  by (simp add: digitsValue_def)

lemma digitsValue_decimal: "digitsValue 10 (decimal n) = n"
proof (induction n rule: decimal.induct)
  case (1 n)
  show ?case
  proof (cases "n < 10")
    case True
    then show ?thesis
      by (simp add: decimal.simps [of n] digitsValue_def digitValue_def)
  next
    case False
    have "digitValue (48 + n mod 10) = Some (n mod 10)"
      by (simp add: digitValue_def)
    with False "1.IH" show ?thesis
      by (simp add: decimal.simps [of n] digitsValue_snoc)
  qed
qed

lemma startsWith_Cons: "startsWith s (p # ps) \<Longrightarrow> \<exists>cs. s = p # cs \<and> startsWith cs ps"
  by (cases s) auto

lemma parseInt_decimal: "parseInt (decimal n) = Num (int n)"
proof -
  obtain c cs where d: "decimal n = c # cs"
    using decimal_nonempty [of n] by (cases "decimal n") auto
  have all: "\<forall>x \<in> set (decimal n). 48 \<le> x \<and> x \<le> 57"
    using decimal_digits by blast
  then have c: "48 \<le> c \<and> c \<le> 57" by (simp add: d)
  have S: "dropWhile isWhiteSpace (decimal n) = decimal n"
    using digit_not_space [OF c] by (simp add: d)
  have nosign: "\<not> startsWith (decimal n) (js ''-'')" "\<not> startsWith (decimal n) (js ''+'')"
    using c by (auto simp: d js_def)
  have nohex: "\<not> startsWith (decimal n) (js ''0x'')" "\<not> startsWith (decimal n) (js ''0X'')"
    using all by (auto simp: d js_def dest!: startsWith_Cons)
  have Z: "takeWhile (isRadixDigit 10) (decimal n) = decimal n"
    using all digit_is_radix10 by (simp add: takeWhile_eq_all_conv)
  show ?thesis
    unfolding parseInt_def Let_def S
    using nosign nohex by (simp add: Z decimal_nonempty digitsValue_decimal)
qed

lemma parseInt_no_digit:
  assumes "dropWhile isWhiteSpace s = [] \<or>
           (\<exists>c rest. dropWhile isWhiteSpace s = c # rest \<and> c \<noteq> 43 \<and> c \<noteq> 45 \<and> \<not> isDigit c)"
  shows "parseInt s = NaN"
proof -
  define S where "S = dropWhile isWhiteSpace s"
  from assms consider "S = []"
    | c rest where "S = c # rest" "c \<noteq> 43" "c \<noteq> 45" "\<not> isDigit c"
    unfolding S_def by blast
  then show ?thesis
  proof cases
    case 1
    then show ?thesis
      unfolding parseInt_def S_def [symmetric] by (simp add: js_def)
  next
    case 2
    then show ?thesis
      unfolding parseInt_def S_def [symmetric]
      by (auto simp: Let_def js_def isDigit_def inRange_def isRadixDigit_def digitValue_def)
  qed
qed

text \<open>
  Claim C1 says that a stored value that does not parse as a number gives 0. The stored
  string \<open>abc\<close> does not parse, and \<open>getVisitCount\<close> returns \<open>NaN\<close> for it.
\<close>

theorem getVisitCount_counterexample:
  "parseInt (js ''abc'') = NaN
   \<and> getVisitCount (emptyStorage\<lparr>visitCount := Some (js ''abc'')\<rparr>) = NaN
   \<and> getVisitCount (emptyStorage\<lparr>visitCount := Some (js ''abc'')\<rparr>) \<noteq> Num 0"
  by (simp add: getVisitCount_def emptyStorage_def parseInt_def js_def isWhiteSpace_def
      isRadixDigit_def digitValue_def)

text \<open>
  Claim C1, amended. \<open>getVisitCount\<close> returns 0 when the key is absent or holds the
  empty string, and \<open>n\<close> when the key holds the decimal numeral of \<open>n\<close>. When the
  stored string is not empty and is all white space, or its first character after the
  leading white space is neither a sign nor a digit, the result is \<open>NaN\<close>, not 0.
\<close>

theorem getVisitCount_cases:
  "(visitCount st = None \<or> visitCount st = Some [] \<longrightarrow> getVisitCount st = Num 0)
   \<and> (n \<le> 2 ^ 53 \<and> visitCount st = Some (decimal n) \<longrightarrow> getVisitCount st = Num (int n))
   \<and> (visitCount st = Some s \<and> s \<noteq> [] \<and>
        (dropWhile isWhiteSpace s = [] \<or>
         (\<exists>c rest. dropWhile isWhiteSpace s = c # rest \<and> c \<noteq> 43 \<and> c \<noteq> 45 \<and> \<not> isDigit c))
       \<longrightarrow> getVisitCount st = NaN)"
  using parseInt_no_digit [of s]
  by (auto simp: getVisitCount_def parseInt_decimal decimal_nonempty)

theorem getVisitCount_cases_witness:
  "getVisitCount emptyStorage = Num 0
   \<and> getVisitCount (emptyStorage\<lparr>visitCount := Some []\<rparr>) = Num 0
   \<and> getVisitCount (emptyStorage\<lparr>visitCount := Some (decimal 42)\<rparr>) = Num 42
   \<and> getVisitCount (emptyStorage\<lparr>visitCount := Some (js '' x1'')\<rparr>) = NaN"
  using getVisitCount_cases [of emptyStorage 0 "[]"]
    getVisitCount_cases [of "emptyStorage\<lparr>visitCount := Some []\<rparr>" 0 "[]"]
    getVisitCount_cases [of "emptyStorage\<lparr>visitCount := Some (decimal 42)\<rparr>" 42 "[]"]
    getVisitCount_cases [of "emptyStorage\<lparr>visitCount := Some (js '' x1'')\<rparr>" 0 "js '' x1''"]
  by (simp add: emptyStorage_def js_def isWhiteSpace_def isDigit_def inRange_def)


lemma countStored_count:
  assumes "countStored st"
  obtains n where "getVisitCount st = Num (int n)" and "n \<le> 2 ^ 53"
    and "visitCount st = None \<or> visitCount st = Some (decimal n)"
proof (cases "visitCount st")
  case None
  then have "getVisitCount st = Num (int 0)" by (simp add: getVisitCount_def)
  with None that [of 0] show ?thesis by simp
next
  case (Some s)
  with assms have s: "s = decimal (digitsValue 10 s)" and le: "digitsValue 10 s \<le> 2 ^ 53"
    by (simp_all add: countStored_def)
  have "s \<noteq> []" using s decimal_nonempty by metis
  moreover have "parseInt s = Num (int (digitsValue 10 s))"
    using parseInt_decimal [of "digitsValue 10 s"] s by simp
  ultimately have "getVisitCount st = Num (int (digitsValue 10 s))"
    using Some by (simp add: getVisitCount_def)
  with that [of "digitsValue 10 s"] le s Some show ?thesis by simp
qed

lemma increment_stored:
  assumes "countStored st"
  obtains n k where "getVisitCount st = Num (int n)"
    and "incrementVisitCount now st
           = (Num (int k), st\<lparr>visitCount := Some (decimal k), lastVisit := Some now\<rparr>)"
    and "n \<le> k" and "k \<le> 2 ^ 53" and "k = (if n < 2 ^ 53 then n + 1 else n)"
proof -
  from assms obtain n where n: "getVisitCount st = Num (int n)" "n \<le> 2 ^ 53"
    by (rule countStored_count)
  define k where "k = (if n < 2 ^ 53 then n + 1 else n)"
  have inc: "increment (Num (int n)) = Num (int k)"
    by (simp add: k_def)
  have "incrementVisitCount now st
          = (Num (int k), st\<lparr>visitCount := Some (decimal k), lastVisit := Some now\<rparr>)"
    by (simp add: incrementVisitCount_def Let_def n(1) inc del: increment.simps)
  moreover have "n \<le> k" "k \<le> 2 ^ 53" using n(2) by (auto simp: k_def)
  ultimately show ?thesis using that [of n k] n(1) k_def by blast
qed

lemma countStored_perform: "countStored st \<Longrightarrow> countStored (perform a st)"
proof (cases a)
  case (PageLoad now)
  assume "countStored st"
  then obtain n k where "incrementVisitCount now st
      = (Num (int k), st\<lparr>visitCount := Some (decimal k), lastVisit := Some now\<rparr>)"
    and "k \<le> 2 ^ 53"
    by (rule increment_stored)
  with PageLoad show ?thesis
    by (simp add: countStored_def digitsValue_decimal)
qed (auto simp: countStored_def resetVisitCounter_def toggleTheme_def toggleFormat_def
      saveMessage_def markAllAsRead_def deleteMessage_def clearAllMessages_def Let_def)

lemma countStored_run: "countStored st \<Longrightarrow> countStored (run as st)"
  by (induction as arbitrary: st) (simp_all add: countStored_perform)

lemma perform_count:
  assumes "countStored st"
  shows "a \<noteq> ResetVisits True \<Longrightarrow> numLe (getVisitCount st) (getVisitCount (perform a st))"
proof (cases a)
  case (PageLoad now)
  from assms obtain n k where n: "getVisitCount st = Num (int n)"
    and inc: "incrementVisitCount now st
      = (Num (int k), st\<lparr>visitCount := Some (decimal k), lastVisit := Some now\<rparr>)"
    and "n \<le> k" "k \<le> 2 ^ 53"
    by (rule increment_stored)
  then show ?thesis
    using PageLoad by (simp add: getVisitCount_def decimal_nonempty parseInt_decimal)
next
  case (ResetVisits c)
  assume "a \<noteq> ResetVisits True"
  with ResetVisits have "perform a st = st" by (simp add: resetVisitCounter_def)
  with countStored_count [OF assms] show ?thesis by (metis numLe.simps(1) order_refl)
next
  case (ToggleTheme d)
  then have "getVisitCount (perform a st) = getVisitCount st"
    by (simp add: getVisitCount_def toggleTheme_def Let_def)
  with countStored_count [OF assms] show ?thesis by (metis numLe.simps(1) order_refl)
next
  case (ToggleFormat d)
  then have "getVisitCount (perform a st) = getVisitCount st"
    by (simp add: getVisitCount_def toggleFormat_def Let_def)
  with countStored_count [OF assms] show ?thesis by (metis numLe.simps(1) order_refl)
next
  case (Submit t iso fd)
  then have "getVisitCount (perform a st) = getVisitCount st"
    by (simp add: getVisitCount_def saveMessage_def Let_def)
  with countStored_count [OF assms] show ?thesis by (metis numLe.simps(1) order_refl)
next
  case OpenAdmin
  then have "getVisitCount (perform a st) = getVisitCount st"
    by (simp add: getVisitCount_def markAllAsRead_def)
  with countStored_count [OF assms] show ?thesis by (metis numLe.simps(1) order_refl)
next
  case (DeleteMessage c i)
  then have "getVisitCount (perform a st) = getVisitCount st"
    by (simp add: getVisitCount_def deleteMessage_def)
  with countStored_count [OF assms] show ?thesis by (metis numLe.simps(1) order_refl)
next
  case (ClearAll c)
  then have "getVisitCount (perform a st) = getVisitCount st"
    by (simp add: getVisitCount_def clearAllMessages_def)
  with countStored_count [OF assms] show ?thesis by (metis numLe.simps(1) order_refl)
qed

text \<open>
  Claim C9. On the fresh store \<open>incrementVisitCount\<close> returns 1 and persists the
  numeral 1 and the current timestamp. From every store whose count is stored as a
  numeral (the fresh store is one), after every sequence of actions, every further action
  but a confirmed reset leaves the count at least as large as it was, and a confirmed
  reset removes both keys, so that the count reads 0.
\<close>

theorem visit_count_monotone:
  assumes "countStored st0"
  shows "incrementVisitCount now emptyStorage
           = (Num 1, emptyStorage\<lparr>visitCount := Some (js ''1''), lastVisit := Some now\<rparr>)
         \<and> countStored emptyStorage
         \<and> (a \<noteq> ResetVisits True \<longrightarrow>
              numLe (getVisitCount (run as st0)) (getVisitCount (perform a (run as st0))))
         \<and> (a = ResetVisits True \<longrightarrow>
              visitCount (perform a (run as st0)) = None
              \<and> lastVisit (perform a (run as st0)) = None
              \<and> getVisitCount (perform a (run as st0)) = Num 0)"
proof -
  have fresh: "countStored emptyStorage"
    by (simp add: countStored_def emptyStorage_def)
  have first: "incrementVisitCount now emptyStorage
     = (Num 1, emptyStorage\<lparr>visitCount := Some (js ''1''), lastVisit := Some now\<rparr>)"
    by (simp add: incrementVisitCount_def getVisitCount_def emptyStorage_def Let_def
        decimal_small js_def)
  have reach: "countStored (run as st0)"
    using assms by (rule countStored_run)
  show ?thesis
    using first fresh perform_count [OF reach, of a]
    by (simp add: resetVisitCounter_def getVisitCount_def)
qed

theorem visit_count_monotone_witness:
  "countStored emptyStorage
   \<and> numLe (getVisitCount (run [PageLoad (js ''t1''), ResetVisits False] emptyStorage))
         (getVisitCount (perform (PageLoad (js ''t2''))
            (run [PageLoad (js ''t1''), ResetVisits False] emptyStorage)))
   \<and> getVisitCount (perform (PageLoad (js ''t2''))
            (run [PageLoad (js ''t1''), ResetVisits False] emptyStorage)) = Num 2
   \<and> visitCount (perform (ResetVisits True) (run [PageLoad (js ''t1'')] emptyStorage)) = None"
proof -
  have fresh: "countStored emptyStorage"
    by (simp add: countStored_def emptyStorage_def)
  show ?thesis
    using visit_count_monotone [OF fresh, of "js ''t0''" "PageLoad (js ''t2'')"
        "[PageLoad (js ''t1''), ResetVisits False]"]
      visit_count_monotone [OF fresh, of "js ''t0''" "ResetVisits True" "[PageLoad (js ''t1'')]"]
    by (simp add: incrementVisitCount_def getVisitCount_def emptyStorage_def Let_def
        resetVisitCounter_def decimal_small
        parseInt_def js_def isWhiteSpace_def isRadixDigit_def digitValue_def digitsValue_def)
qed

section \<open>Properties of the contact messages\<close>

text \<open>
  Claim C7. \<open>saveMessage\<close> reads the persisted list, an absent key as the empty list,
  builds the message with \<open>read\<close> false and with an empty phone turned into \<open>null\<close>
  (\<open>None\<close>), puts it in front of the list and persists the whole list. After two calls in
  a row the second message is at index 0 of the persisted list, the first at index 1, and
  the messages persisted before follow.
\<close>

theorem saveMessage_prepends:
  "(let old = (case contactMessages st of None \<Rightarrow> [] | Some ms \<Rightarrow> ms);
        msg = \<lparr>msgId = nowMs, msgName = fdName fd, msgEmail = fdEmail fd,
                 msgPhone = (if fdPhone fd = [] then None else Some (fdPhone fd)),
                 msgSubject = fdSubject fd, msgMessage = fdMessage fd, msgDate = nowIso,
                 msgRead = False\<rparr>
    in saveMessage nowMs nowIso fd st = (msg, st\<lparr>contactMessages := Some (msg # old)\<rparr>))
   \<and> (let (m1, st1) = saveMessage t1 iso1 fd1 st;
           (m2, st2) = saveMessage t2 iso2 fd2 st1;
           persisted = (case contactMessages st2 of None \<Rightarrow> [] | Some ms \<Rightarrow> ms)
       in 2 \<le> length persisted \<and> persisted ! 0 = m2 \<and> persisted ! 1 = m1
          \<and> drop 2 persisted = (case contactMessages st of None \<Rightarrow> [] | Some ms \<Rightarrow> ms))"
  by (simp add: saveMessage_def readMessages_def Let_def split: option.split)





section \<open>Properties of the validation\<close>

lemma validateFieldIn_order:
  "table f = Some r \<Longrightarrow> validateFieldIn table f v = firstFailure r v"
  by (simp add: validateFieldIn_def firstFailure_def checkOrder_def)

lemma validateFieldIn_empty_pattern:
  "trim v = [] \<Longrightarrow>
     validateFieldIn (table(f \<mapsto> r\<lparr>pattern := p\<rparr>)) f v
       = validateFieldIn (table(f \<mapsto> r\<lparr>pattern := q\<rparr>)) f v"
  by (simp add: validateFieldIn_def split: option.split)

lemma validationRules_cases:
  assumes "validationRules f = Some r"
  shows "r = nameRules \<or> r = emailRules \<or> r = subjectRules \<or> r = messageRules
         \<or> r = phoneRules"
  using assms by (auto simp: validationRules_def split: if_splits)

lemma optional_is_phone:
  assumes "validationRules f = Some r" and "\<not> required r"
  shows "minLength r = None \<and> maxLength r = None"
  using validationRules_cases [OF assms(1)] assms(2)
  by (auto simp: nameRules_def emailRules_def subjectRules_def messageRules_def phoneRules_def)

text \<open>
  Claim C4. For every field that has rules and every value, \<open>validateField\<close> returns
  what the first failing check of the order required, minLength, maxLength, pattern
  reports, with that check's message alone, and valid with the empty message when no
  check fails; a check whose rule is absent never fails. When the trimmed value is empty
  the pattern is not consulted: any other pattern in its place gives the same result. An
  empty value of an optional field is valid with the empty message.
\<close>

theorem validateField_order:
  assumes "validationRules f = Some r"
  shows "validateField f v = firstFailure r v
         \<and> (trim v = [] \<longrightarrow>
               validateFieldIn (validationRules(f \<mapsto> r\<lparr>pattern := q\<rparr>)) f v = validateField f v)
         \<and> (trim v = [] \<and> \<not> required r \<longrightarrow>
               validateField f v = \<lparr>valid = True, message = Some []\<rparr>)"
proof -
  have one: "validateField f v = firstFailure r v"
    using assms by (simp add: validateField_def validateFieldIn_order)
  have "validationRules(f \<mapsto> r\<lparr>pattern := pattern r\<rparr>) = validationRules"
    using assms by (auto simp: fun_upd_idem_iff)
  then have two: "trim v = [] \<longrightarrow>
      validateFieldIn (validationRules(f \<mapsto> r\<lparr>pattern := q\<rparr>)) f v = validateField f v"
    using validateFieldIn_empty_pattern
      [where v = v and table = validationRules and f = f and r = r and p = q and q = "pattern r"]
    by (simp add: validateField_def)
  have three: "trim v = [] \<and> \<not> required r \<longrightarrow>
      validateField f v = \<lparr>valid = True, message = Some []\<rparr>"
    using optional_is_phone [OF assms] assms
    by (auto simp: validateField_def validateFieldIn_def split: option.splits)
  from one two three show ?thesis by blast
qed

theorem validateField_order_witness:
  "validationRules (js ''phone'') = Some phoneRules
   \<and> trim (js '' '') = [] \<and> \<not> required phoneRules
   \<and> validateField (js ''phone'') (js '' '') = firstFailure phoneRules (js '' '')
   \<and> validateField (js ''phone'') (js '' '') = \<lparr>valid = True, message = Some []\<rparr>
   \<and> validateFieldIn (validationRules(js ''phone'' \<mapsto> phoneRules\<lparr>pattern := Some Zero\<rparr>))
        (js ''phone'') (js '' '') = validateField (js ''phone'') (js '' '')"
proof -
  have a: "validationRules (js ''phone'') = Some phoneRules"
    by (simp add: validationRules_def js_def)
  have b: "trim (js '' '') = [] \<and> \<not> required phoneRules"
    by (simp add: trim_def js_def isWhiteSpace_def phoneRules_def)
  from validateField_order [OF a, of "js '' ''" "Some Zero"] a b show ?thesis
    by blast
qed

section \<open>Properties of the search\<close>

lemma startsWith_iff: "startsWith s p \<longleftrightarrow> (\<exists>suf. s = p @ suf)"
  by (induction s p rule: startsWith.induct) auto

lemma includesStr_iff: "includesStr hay needle \<longleftrightarrow> (\<exists>pre suf. hay = pre @ needle @ suf)"
proof (induction hay)
  case Nil
  then show ?case by simp
next
  case (Cons c cs)
  show ?case
  proof
    assume "includesStr (c # cs) needle"
    then consider "startsWith (c # cs) needle" | "includesStr cs needle" by auto
    then show "\<exists>pre suf. c # cs = pre @ needle @ suf"
    proof cases
      case 1
      then obtain suf where "c # cs = needle @ suf" by (auto simp: startsWith_iff)
      then have "c # cs = [] @ needle @ suf" by simp
      then show ?thesis by blast
    next
      case 2
      with Cons.IH obtain pre suf where "cs = pre @ needle @ suf" by blast
      then have "c # cs = (c # pre) @ needle @ suf" by simp
      then show ?thesis by blast
    qed
  next
    assume "\<exists>pre suf. c # cs = pre @ needle @ suf"
    then obtain pre suf where eq: "c # cs = pre @ needle @ suf" by blast
    show "includesStr (c # cs) needle"
    proof (cases pre)
      case Nil
      with eq have "startsWith (c # cs) needle" by (auto simp: startsWith_iff)
      then show ?thesis by simp
    next
      case (Cons d ds)
      with eq have "cs = ds @ needle @ suf" by simp
      with Cons.IH have "includesStr cs needle" by blast
      then show ?thesis by simp
    qed
  qed
qed

lemma renderProjects_grid:
  "grid g = Some cards \<Longrightarrow> grid (renderProjects ps g) = Some ps"
  by (simp add: renderProjects_def)

lemma renderProjects_category:
  "currentCategory (renderProjects ps g) = currentCategory g"
  by (simp add: renderProjects_def split: option.split)

text \<open>
  Claim C5. On a page that has the grid, for every query \<open>searchProjects\<close> leaves the
  active category as it is and renders: when the lowercased, trimmed query is empty, the
  whole subset of the active category (every project for \<open>all\<close>); otherwise exactly
  the projects of that subset whose lowercased title, lowercased description or some
  lowercased tag contains the lowercased, trimmed query as a substring, in the order of
  the project list.
\<close>

theorem searchProjects_result:
  assumes "grid g = Some cards"
  shows "let term = trim (lower query);
             active = (if currentCategory g = js ''all'' then projects
                       else filter (\<lambda>p. category p = currentCategory g) projects);
             shown = (case grid (searchProjects lower query g) of
                        None \<Rightarrow> [] | Some ps \<Rightarrow> ps)
         in grid (searchProjects lower query g) \<noteq> None
            \<and> currentCategory (searchProjects lower query g) = currentCategory g
            \<and> (term = [] \<longrightarrow> shown = active)
            \<and> (term \<noteq> [] \<longrightarrow>
                 shown = filter (\<lambda>p. p \<in> set shown) active
                 \<and> (\<forall>p. p \<in> set shown \<longleftrightarrow>
                       p \<in> set active
                       \<and> ((\<exists>pre suf. lower (title p) = pre @ term @ suf)
                          \<or> (\<exists>pre suf. lower (description p) = pre @ term @ suf)
                          \<or> (\<exists>tag \<in> set (tags p). \<exists>pre suf. lower tag = pre @ term @ suf))))"
proof (cases "trim (lower query) = []")
  case True
  then have "searchProjects lower query g = filterProjects (currentCategory g) g"
    by (simp add: searchProjects_def)
  then show ?thesis
    using True assms
    by (simp add: filterProjects_def Let_def renderProjects_grid renderProjects_category)
next
  case False
  define tm where "tm = trim (lower query)"
  define active where "active = (if currentCategory g = js ''all'' then projects
                       else filter (\<lambda>p. category p = currentCategory g) projects)"
  define hit where "hit = (\<lambda>p :: project. includesStr (lower (title p)) tm
                \<or> includesStr (lower (description p)) tm
                \<or> list_ex (\<lambda>tag. includesStr (lower tag) tm) (tags p))"
  have run: "searchProjects lower query g = renderProjects (filter hit active) g"
    using False by (simp add: searchProjects_def Let_def tm_def active_def hit_def)
  have shown: "grid (searchProjects lower query g) = Some (filter hit active)"
    using assms by (simp add: run renderProjects_grid)
  have hit: "hit p \<longleftrightarrow> ((\<exists>pre suf. lower (title p) = pre @ tm @ suf)
                          \<or> (\<exists>pre suf. lower (description p) = pre @ tm @ suf)
                          \<or> (\<exists>tag \<in> set (tags p). \<exists>pre suf. lower tag = pre @ tm @ suf))" for p
    by (simp add: hit_def includesStr_iff list_ex_iff)
  have order: "filter hit active = filter (\<lambda>p. p \<in> set (filter hit active)) active"
    by (rule filter_cong) auto
  have mem: "p \<in> set (filter hit active) \<longleftrightarrow> p \<in> set active
               \<and> ((\<exists>pre suf. lower (title p) = pre @ tm @ suf)
                          \<or> (\<exists>pre suf. lower (description p) = pre @ tm @ suf)
                          \<or> (\<exists>tag \<in> set (tags p). \<exists>pre suf. lower tag = pre @ tm @ suf))" for p
    using hit [of p] by simp
  have cat: "currentCategory (searchProjects lower query g) = currentCategory g"
    by (simp add: run renderProjects_category)
  show ?thesis
    unfolding Let_def shown tm_def [symmetric] active_def [symmetric] option.case cat
    using False order mem by (simp add: tm_def)
qed


theorem searchProjects_result_witness:
  "(let g = \<lparr>currentCategory = js ''web'', searchInput = Some (js '' Api ''),
              grid = Some projects, noResults = Some False\<rparr>
    in grid g = Some projects
       \<and> map projId (case grid (searchProjects toLowerLatin1 (js '' Api '') g) of
                        None \<Rightarrow> [] | Some ps \<Rightarrow> ps) = [1, 5]
       \<and> trim (toLowerLatin1 (js '' Api '')) \<noteq> []
       \<and> grid (searchProjects toLowerLatin1 (js '' Api '') g) \<noteq> None
       \<and> currentCategory (searchProjects toLowerLatin1 (js '' Api '') g) = js ''web'')"
proof -
  let ?g = "\<lparr>currentCategory = js ''web'', searchInput = Some (js '' Api ''),
              grid = Some projects, noResults = Some False\<rparr>"
  have h: "grid ?g = Some projects" by simp
  have t: "trim (toLowerLatin1 (js '' Api '')) = js ''api''"
    by (simp add: trim_def toLowerLatin1_def js_def isWhiteSpace_def inRange_def)
  have ev: "map projId (case grid (searchProjects toLowerLatin1 (js '' Api '') ?g) of
                        None \<Rightarrow> [] | Some ps \<Rightarrow> ps) = [1, 5]"
    unfolding searchProjects_def t Let_def
    by (simp add: renderProjects_def projects_def toLowerLatin1_def js_def inRange_def)
  from searchProjects_result [OF h, of toLowerLatin1 "js '' Api ''"] h t ev
  show ?thesis
    unfolding Let_def by (simp add: js_def)
qed

section \<open>Patterns and their languages\<close>

lemma conc_iff: "w \<in> conc A B \<longleftrightarrow> (\<exists>a b. w = a @ b \<and> a \<in> A \<and> b \<in> B)"
  by (auto simp: conc_def)

lemma Cons_in_conc:
  "c # w \<in> conc A B \<longleftrightarrow>
     ([] \<in> A \<and> c # w \<in> B) \<or> (\<exists>a b. w = a @ b \<and> c # a \<in> A \<and> b \<in> B)"
proof
  assume "c # w \<in> conc A B"
  then obtain a b where ab: "c # w = a @ b" "a \<in> A" "b \<in> B" by (auto simp: conc_iff)
  show "([] \<in> A \<and> c # w \<in> B) \<or> (\<exists>a b. w = a @ b \<and> c # a \<in> A \<and> b \<in> B)"
  proof (cases a)
    case Nil
    with ab show ?thesis by simp
  next
    case (Cons d ds)
    with ab have "w = ds @ b" "c # ds \<in> A" by simp_all
    with ab(3) show ?thesis by blast
  qed
next
  assume "([] \<in> A \<and> c # w \<in> B) \<or> (\<exists>a b. w = a @ b \<and> c # a \<in> A \<and> b \<in> B)"
  then show "c # w \<in> conc A B"
  proof
    assume "[] \<in> A \<and> c # w \<in> B"
    then have "c # w = [] @ (c # w) \<and> [] \<in> A \<and> c # w \<in> B" by simp
    then show ?thesis unfolding conc_iff by blast
  next
    assume "\<exists>a b. w = a @ b \<and> c # a \<in> A \<and> b \<in> B"
    then obtain a b where "w = a @ b" "c # a \<in> A" "b \<in> B" by blast
    then have "c # w = (c # a) @ b \<and> c # a \<in> A \<and> b \<in> B" by simp
    then show ?thesis unfolding conc_iff by blast
  qed
qed

lemma Cons_in_star:
  "c # w \<in> star A \<longleftrightarrow> (\<exists>a b. w = a @ b \<and> c # a \<in> A \<and> b \<in> star A)"
proof
  assume "c # w \<in> star A"
  then show "\<exists>a b. w = a @ b \<and> c # a \<in> A \<and> b \<in> star A"
  proof (induction "c # w" rule: star.induct)
    case (star_app a u)
    show ?case
    proof (cases a)
      case Nil
      with star_app show ?thesis by simp
    next
      case (Cons d ds)
      with star_app.hyps have "w = ds @ u" "c # ds \<in> A" by simp_all
      with star_app.hyps(2) show ?thesis by blast
    qed
  qed
next
  assume "\<exists>a b. w = a @ b \<and> c # a \<in> A \<and> b \<in> star A"
  then obtain a b where "w = a @ b" "c # a \<in> A" "b \<in> star A" by blast
  then show "c # w \<in> star A"
    using star_app [of "c # a" A b] by simp
qed

lemma nullable_iff: "nullable r \<longleftrightarrow> [] \<in> lang r"
  by (induction r) (auto simp: conc_iff star_nil)

lemma deriv_iff: "w \<in> lang (deriv c r) \<longleftrightarrow> c # w \<in> lang r"
proof (induction r arbitrary: w)
  case Zero
  show ?case by simp
next
  case One
  show ?case by simp
next
  case (Atom p)
  show ?case by simp
next
  case (Alt r s)
  then show ?case by simp
next
  case (Seq r s)
  have left: "w \<in> conc (lang (deriv c r)) (lang s)
                \<longleftrightarrow> (\<exists>a b. w = a @ b \<and> c # a \<in> lang r \<and> b \<in> lang s)"
    by (simp only: conc_iff Seq.IH(1))
  show ?case
  proof (cases "nullable r")
    case True
    then have "[] \<in> lang r" by (simp add: nullable_iff)
    with True left Seq.IH(2) [of w] show ?thesis
      by (simp only: deriv.simps lang.simps if_True Un_iff Cons_in_conc [of c w]) blast
  next
    case False
    then have "[] \<notin> lang r" by (simp add: nullable_iff)
    with False left show ?thesis
      by (simp only: deriv.simps lang.simps if_False Cons_in_conc [of c w]) blast
  qed
next
  case (Star r)
  have "w \<in> conc (lang (deriv c r)) (star (lang r))
          \<longleftrightarrow> (\<exists>a b. w = a @ b \<and> c # a \<in> lang r \<and> b \<in> star (lang r))"
    by (simp only: conc_iff Star.IH)
  then show ?case
    by (simp only: deriv.simps lang.simps Cons_in_star [of c w])
qed

lemma test_iff: "test r w \<longleftrightarrow> w \<in> lang r"
  by (induction w arbitrary: r) (simp_all add: nullable_iff deriv_iff)

lemma star_Atom: "star {[c] | c. p c} = {w. \<forall>c \<in> set w. p c}"
proof (intro equalityI subsetI)
  fix w assume "w \<in> star {[c] | c. p c}"
  then show "w \<in> {w. \<forall>c \<in> set w. p c}"
    by (induction rule: star.induct) auto
next
  fix w assume "w \<in> {w. \<forall>c \<in> set w. p c}"
  then have "\<forall>c \<in> set w. p c" by simp
  then show "w \<in> star {[c] | c. p c}"
  proof (induction w)
    case Nil
    show ?case by (rule star_nil)
  next
    case (Cons d ds)
    then have "[d] \<in> {[c] | c. p c}" "ds \<in> star {[c] | c. p c}" by simp_all
    then have "[d] @ ds \<in> star {[c] | c. p c}" by (rule star_app)
    then show ?case by simp
  qed
qed

lemma test_Plus_Atom: "test (Plus (Atom p)) w \<longleftrightarrow> w \<noteq> [] \<and> (\<forall>c \<in> set w. p c)"
proof (cases w)
  case Nil
  then show ?thesis by (simp add: Plus_def)
next
  case (Cons c cs)
  then show ?thesis
    by (simp add: Plus_def test_iff star_Atom Cons_in_conc)
qed

lemma lang_Opt: "lang (Opt r) = insert [] (lang r)"
  by (simp add: Opt_def)

lemma lang_Chr: "lang (Chr c) = {[c]}"
  by (simp add: Chr_def)

lemma conc_single: "conc {a} {b} = {a @ b}"
  by (auto simp: conc_def)

lemma lang_Lit: "lang (Lit s) = {s}"
  by (induction s) (simp_all add: lang_Chr conc_single)

lemma Times_3: "Times 3 r = Seq r (Seq r (Seq r One))"
  by (simp add: numeral_3_eq_3)

lemma in_conc_Atom: "w \<in> conc {[c] | c. p c} B \<longleftrightarrow> (\<exists>c u. w = c # u \<and> p c \<and> u \<in> B)"
proof (cases w)
  case Nil
  then show ?thesis by (simp add: conc_def)
next
  case (Cons d ds)
  then show ?thesis by (simp add: Cons_in_conc)
qed

lemma in_optSpace: "w \<in> lang (Opt (Atom isWhiteSpace)) \<longleftrightarrow> optSpace w"
proof (cases w)
  case Nil
  then show ?thesis by (simp add: lang_Opt optSpace_def)
next
  case (Cons c cs)
  then show ?thesis by (cases cs) (simp_all add: lang_Opt optSpace_def)
qed

lemma in_digits3:
  "w \<in> lang (Times 3 (Atom isDigit)) \<longleftrightarrow> length w = 3 \<and> list_all isDigit w"
proof -
  have "w \<in> lang (Times 3 (Atom isDigit)) \<longleftrightarrow>
          (\<exists>a b c. w = [a, b, c] \<and> isDigit a \<and> isDigit b \<and> isDigit c)"
    unfolding Times_3 lang.simps in_conc_Atom by auto
  also have "\<dots> \<longleftrightarrow> length w = 3 \<and> list_all isDigit w"
    by (auto simp: length_Suc_conv numeral_3_eq_3)
  finally show ?thesis .
qed


lemma in_phoneGroup:
  "x \<in> lang (Seq (Times 3 (Atom isDigit)) (Opt (Atom isWhiteSpace))) \<longleftrightarrow> phoneGroup x"
proof
  assume "x \<in> lang (Seq (Times 3 (Atom isDigit)) (Opt (Atom isWhiteSpace)))"
  then have "x \<in> conc (lang (Times 3 (Atom isDigit))) (lang (Opt (Atom isWhiteSpace)))"
    by (simp only: lang.simps)
  then obtain a b where ab: "x = a @ b" "a \<in> lang (Times 3 (Atom isDigit))"
      "b \<in> lang (Opt (Atom isWhiteSpace))"
    unfolding conc_iff by blast
  then have "length a = 3" "list_all isDigit a" "optSpace b"
    by (simp_all only: in_digits3 in_optSpace)
  with ab(1) show "phoneGroup x" by (simp add: phoneGroup_def)
next
  assume "phoneGroup x"
  then have "take 3 x \<in> lang (Times 3 (Atom isDigit))"
    and "drop 3 x \<in> lang (Opt (Atom isWhiteSpace))"
    by (simp_all only: phoneGroup_def in_digits3 in_optSpace)
  moreover have "x = take 3 x @ drop 3 x" by simp
  ultimately have "x \<in> conc (lang (Times 3 (Atom isDigit))) (lang (Opt (Atom isWhiteSpace)))"
    unfolding conc_iff by blast
  then show "x \<in> lang (Seq (Times 3 (Atom isDigit)) (Opt (Atom isWhiteSpace)))"
    by (simp only: lang.simps)
qed

lemma in_countryPrefix:
  "p \<in> lang (Opt (Seq (Lit (js ''+351'')) (Opt (Atom isWhiteSpace)))) \<longleftrightarrow> countryPrefix p"
proof -
  have "p \<in> lang (Opt (Seq (Lit (js ''+351'')) (Opt (Atom isWhiteSpace))))
          \<longleftrightarrow> p = [] \<or> p \<in> conc {js ''+351''} (lang (Opt (Atom isWhiteSpace)))"
    by (simp only: lang_Opt [of "Seq (Lit (js ''+351'')) (Opt (Atom isWhiteSpace))"]
        lang.simps lang_Lit insert_iff)
  also have "p \<in> conc {js ''+351''} (lang (Opt (Atom isWhiteSpace)))
          \<longleftrightarrow> (\<exists>b. p = js ''+351'' @ b \<and> optSpace b)"
    by (simp only: conc_iff in_optSpace singleton_iff) blast
  also have "(\<exists>b. p = js ''+351'' @ b \<and> optSpace b)
          \<longleftrightarrow> take 4 p = js ''+351'' \<and> optSpace (drop 4 p)"
  proof
    assume "\<exists>b. p = js ''+351'' @ b \<and> optSpace b"
    then obtain b where "p = js ''+351'' @ b" "optSpace b" by blast
    then show "take 4 p = js ''+351'' \<and> optSpace (drop 4 p)" by (simp add: js_def)
  next
    assume a: "take 4 p = js ''+351'' \<and> optSpace (drop 4 p)"
    have "p = take 4 p @ drop 4 p" by simp
    with a have "p = js ''+351'' @ drop 4 p" by simp
    with a show "\<exists>b. p = js ''+351'' @ b \<and> optSpace b" by blast
  qed
  finally show ?thesis by (simp only: countryPrefix_def)
qed

section \<open>Properties of the name and phone patterns\<close>

lemma conc_nil: "conc A {[]} = A"
  by (auto simp: conc_def)



lemma test_phonePattern:
  "test phonePattern v \<longleftrightarrow>
     (\<exists>p a b c. v = p @ a @ b @ c \<and> countryPrefix p
        \<and> phoneGroup a \<and> phoneGroup b \<and> phoneGroup c)"
proof -
  let ?G = "lang (Seq (Times 3 (Atom isDigit)) (Opt (Atom isWhiteSpace)))"
  let ?P = "lang (Opt (Seq (Lit (js ''+351'')) (Opt (Atom isWhiteSpace))))"
  have "lang phonePattern = conc ?P (conc ?G (conc ?G ?G))"
    unfolding phonePattern_def Times_3 [of "Seq (Times 3 (Atom isDigit)) (Opt (Atom isWhiteSpace))"]
    by (simp only: lang.simps conc_nil)
  then have "v \<in> lang phonePattern \<longleftrightarrow>
     (\<exists>p r. v = p @ r \<and> p \<in> ?P \<and> (\<exists>a s. r = a @ s \<and> a \<in> ?G \<and>
        (\<exists>b c. s = b @ c \<and> b \<in> ?G \<and> c \<in> ?G)))"
    by (simp only: conc_iff)
  also have "\<dots> \<longleftrightarrow>
     (\<exists>p a b c. v = p @ a @ b @ c \<and> p \<in> ?P \<and> a \<in> ?G \<and> b \<in> ?G \<and> c \<in> ?G)"
    by blast
  finally show ?thesis
    by (simp only: test_iff in_phoneGroup in_countryPrefix)
qed



lemma trim_Nil: "trim [] = []"
  by (simp add: trim_def)



lemma phone_rules: "validationRules (js ''phone'') = Some phoneRules"
  by (simp add: validationRules_def js_def)



lemma name_rules: "validationRules (js ''name'') = Some nameRules"
  by (simp add: validationRules_def js_def)



lemma validateField_phone_test:
  "valid (validateField (js ''phone'') v) \<longleftrightarrow> trim v = [] \<or> test phonePattern v"
  unfolding validateField_def validateFieldIn_def phone_rules
  by (simp add: phoneRules_def)


lemma validateField_name_iff:
  "valid (validateField (js ''name'') v) \<longleftrightarrow>
     3 \<le> length (trim v) \<and> (\<forall>c \<in> set v. nameClass c)"
proof -
  have "3 \<le> length (trim v) \<Longrightarrow> v \<noteq> []"
    using trim_Nil by auto
  then show ?thesis
    unfolding validateField_def validateFieldIn_def name_rules
    by (auto simp: nameRules_def namePattern_def test_Plus_Atom)
qed



lemma nameClass_letters:
  "nameClass c \<longleftrightarrow> isLetter c \<or> isAccentedLetter c \<or> isWhiteSpace c \<or> c = 0xD7 \<or> c = 0xF7"
  by (auto simp: nameClass_def isLetter_def isAccentedLetter_def inRange_def)

text \<open>
  Claim C2 says that a name is valid exactly when, trimmed, it has at least 3 characters
  and it consists of letters, accented letters and spaces only. The range of the pattern
  from U+00C0 to U+00FF also holds the multiplication sign U+00D7 (and the division sign
  U+00F7), which is no letter: \<open>validateField\<close> accepts the name made of \<open>A\<close>, the
  multiplication sign and \<open>B\<close>.
\<close>

theorem name_accepts_multiplication_sign:
  "validateField (js ''name'') [0x41, 0xD7, 0x42] = \<lparr>valid = True, message = Some []\<rparr>
   \<and> \<not> isLetter 0xD7 \<and> \<not> isAccentedLetter 0xD7 \<and> \<not> isWhiteSpace 0xD7"
  by (simp add: validateField_def validateFieldIn_def name_rules nameRules_def
      namePattern_def Plus_def nameClass_def inRange_def trim_def isWhiteSpace_def
      isLetter_def isAccentedLetter_def)

text \<open>The three examples of the claim hold.\<close>

lemma validateField_name_examples:
  "validateField (js ''name'') (js '''')
     = \<lparr>valid = False, message = Some (js ''Por favor, introduz o teu nome'')\<rparr>"
  "validateField (js ''name'') (js ''Al'')
     = \<lparr>valid = False, message = Some (js ''O nome deve ter pelo menos 3 caracteres'')\<rparr>"
  "validateField (js ''name'') (js ''Ana'') = \<lparr>valid = True, message = Some []\<rparr>"
  by (simp_all add: validateField_def validateFieldIn_def validationRules_def nameRules_def
      noMessages_def namePattern_def Plus_def nameClass_def inRange_def trim_def
      isWhiteSpace_def js_def)

text \<open>
  Claim C3 says that a non-empty phone value is accepted exactly when it has the shape
  \<open>+CCC NNN NNN NNN\<close>. A value of that shape with the country code 123 is rejected,
  and nine digits followed by a space, which is not of that shape, are accepted.
\<close>

theorem phone_shape_counterexample:
  "phoneShaped (js ''+123 912 345 678'')
   \<and> \<not> valid (validateField (js ''phone'') (js ''+123 912 345 678''))
   \<and> js ''912345678 '' \<noteq> []
   \<and> \<not> phoneShaped (js ''912345678 '')
   \<and> valid (validateField (js ''phone'') (js ''912345678 ''))"
  unfolding validateField_phone_test phoneShaped_def
  by (simp add: shapedPattern_def phonePattern_def Times_3 Opt_def Chr_def isDigit_def
      inRange_def trim_def isWhiteSpace_def js_def)

text \<open>
  Claim C3, amended. \<open>validateField\<close> accepts a phone value exactly when the value
  trims to the empty string, or it is an optional prefix \<open>+351\<close>, which one white-space
  character may follow, and then three groups of three digits, each of which one
  white-space character may follow.
\<close>

theorem validateField_phone_iff:
  "valid (validateField (js ''phone'') v) \<longleftrightarrow>
     trim v = [] \<or>
     (\<exists>p a b c. v = p @ a @ b @ c \<and> countryPrefix p
        \<and> phoneGroup a \<and> phoneGroup b \<and> phoneGroup c)"
  by (simp only: validateField_phone_test test_phonePattern)

theorem validateField_phone_iff_witness:
  "valid (validateField (js ''phone'') (js ''+351 912 345 678''))
   \<and> valid (validateField (js ''phone'') (js ''  ''))
   \<and> \<not> valid (validateField (js ''phone'') (js ''12''))"
proof -
  have "js ''+351 912 345 678'' = js ''+351 '' @ js ''912 '' @ js ''345 '' @ js ''678''"
    by (simp add: js_def)
  moreover have "countryPrefix (js ''+351 '')" "phoneGroup (js ''912 '')"
    "phoneGroup (js ''345 '')" "phoneGroup (js ''678'')"
    by (simp_all add: countryPrefix_def phoneGroup_def optSpace_def isDigit_def inRange_def
        isWhiteSpace_def js_def)
  ultimately have "\<exists>p a b c. js ''+351 912 345 678'' = p @ a @ b @ c \<and> countryPrefix p
        \<and> phoneGroup a \<and> phoneGroup b \<and> phoneGroup c"
    by blast
  then have one: "valid (validateField (js ''phone'') (js ''+351 912 345 678''))"
    using validateField_phone_iff [of "js ''+351 912 345 678''"] by blast
  have "trim (js ''  '') = []"
    by (simp add: trim_def js_def isWhiteSpace_def)
  then have two: "valid (validateField (js ''phone'') (js ''  ''))"
    using validateField_phone_iff [of "js ''  ''"] by blast
  have three: "\<not> valid (validateField (js ''phone'') (js ''12''))"
    unfolding validateField_phone_test
    by (simp add: phonePattern_def Times_3 Opt_def Chr_def isDigit_def inRange_def trim_def
        isWhiteSpace_def js_def)
  from one two three show ?thesis by blast
qed

section \<open>Properties of the debounced search\<close>

lemma advanceTo_idle:
  assumes "\<forall>(h, d, cb) \<in> set (pending L). t < d"
  shows "advanceTo t L = L\<lparr>clock := max (clock L) t\<rparr>"
proof -
  have none: "filter (\<lambda>(h, d, cb). d \<le> t) (pending L) = []"
    using assms by (auto simp: filter_empty_conv)
  have all: "filter (\<lambda>(h, d, cb). \<not> d \<le> t) (pending L) = pending L"
    using assms by (auto simp: filter_id_conv)
  show ?thesis
    by (simp add: advanceTo_def Let_def none all)
qed

lemma advanceTo_single_due:
  assumes "pending L = [(h, d, cb)]" and "d \<le> t"
  shows "advanceTo t L =
           L\<lparr>pending := [], clock := max (max (clock L) d) t, page := cb (page L),
             fired := fired L @ [(h, d)]\<rparr>"
  using assms by (simp add: advanceTo_def Let_def runTimer_def)

lemma first_input:
  assumes "pending L = []" and "clock L \<le> t"
  shows "inputAt lower (tm, L) (t, q) =
           (Some (nextHandle L),
            L\<lparr>clock := t, pending := [(nextHandle L, t + 280, searchProjects lower q)],
              nextHandle := nextHandle L + 1\<rparr>)"
proof -
  have "advanceTo t L = L\<lparr>clock := max (clock L) t\<rparr>"
    using assms(1) by (intro advanceTo_idle) simp
  then have adv: "advanceTo t L = L\<lparr>clock := t\<rparr>"
    using assms(2) by (simp add: max_def)
  show ?thesis
    using assms(1)
    by (cases tm)
      (simp_all add: inputAt_def debouncedSearch_def debounce_def adv clearTimeout_def
        setTimeout_def Let_def)
qed

lemma next_input:
  assumes "pending L = [(h, t + 280, cb)]" and "clock L = t" and "t \<le> u" and "u < t + 280"
  shows "inputAt lower (Some h, L) (u, q) =
           (Some (nextHandle L),
            L\<lparr>clock := u, pending := [(nextHandle L, u + 280, searchProjects lower q)],
              nextHandle := nextHandle L + 1\<rparr>)"
proof -
  have "advanceTo u L = L\<lparr>clock := max (clock L) u\<rparr>"
    using assms(1,4) by (intro advanceTo_idle) simp
  then have adv: "advanceTo u L = L\<lparr>clock := u\<rparr>"
    using assms(2,3) by (simp add: max_def)
  show ?thesis
    using assms(1)
    by (simp add: inputAt_def debouncedSearch_def debounce_def adv clearTimeout_def
        setTimeout_def Let_def)
qed

text \<open>The state after a call at time \<open>t\<close> with the text \<open>q\<close>, nothing having run.\<close>

lemma burst_from_armed:
  assumes "pending L = [(h, t + 280, searchProjects lower q)]" and "clock L = t"
    and "rapid 280 (t # map fst evs)"
  shows "\<exists>h' L'. foldl (inputAt lower) (Some h, L) evs = (Some h', L')
           \<and> pending L' = [(h', fst (last ((t, q) # evs)) + 280,
                              searchProjects lower (snd (last ((t, q) # evs))))]
           \<and> clock L' = fst (last ((t, q) # evs))
           \<and> page L' = page L \<and> fired L' = fired L"
  using assms
proof (induction evs arbitrary: L h t q)
  case Nil
  then show ?case by simp
next
  case (Cons e evs)
  obtain u q' where e: "e = (u, q')" by (cases e)
  from Cons.prems(3) e have u: "t \<le> u" "u < t + 280" and rest: "rapid 280 (u # map fst evs)"
    by simp_all
  let ?L = "L\<lparr>clock := u, pending := [(nextHandle L, u + 280, searchProjects lower q')],
              nextHandle := nextHandle L + 1\<rparr>"
  have step: "inputAt lower (Some h, L) (u, q') = (Some (nextHandle L), ?L)"
    using Cons.prems(1,2) u by (rule next_input)
  have "pending ?L = [(nextHandle L, u + 280, searchProjects lower q')]" "clock ?L = u"
    by simp_all
  from Cons.IH [OF this rest]
  obtain h' L' where "foldl (inputAt lower) (Some (nextHandle L), ?L) evs = (Some h', L')"
    and "pending L' = [(h', fst (last ((u, q') # evs)) + 280,
                              searchProjects lower (snd (last ((u, q') # evs))))]"
    and "clock L' = fst (last ((u, q') # evs))"
    and "page L' = page ?L" and "fired L' = fired ?L"
    by blast
  then show ?case
    using step e by simp
qed

lemma burst_armed:
  assumes "evs \<noteq> []" and "rapid 280 (map fst evs)" and "pending L0 = []"
    and "clock L0 \<le> fst (hd evs)"
  shows "\<exists>h L. foldl (inputAt lower) (tm0, L0) evs = (Some h, L)
           \<and> pending L = [(h, fst (last evs) + 280, searchProjects lower (snd (last evs)))]
           \<and> clock L = fst (last evs)
           \<and> page L = page L0 \<and> fired L = fired L0"
proof -
  from assms(1) obtain t q rest where evs: "evs = (t, q) # rest"
    by (cases evs) auto
  let ?L = "L0\<lparr>clock := t, pending := [(nextHandle L0, t + 280, searchProjects lower q)],
              nextHandle := nextHandle L0 + 1\<rparr>"
  have step: "inputAt lower (tm0, L0) (t, q) = (Some (nextHandle L0), ?L)"
    using assms(3,4) evs by (intro first_input) simp_all
  have "pending ?L = [(nextHandle L0, t + 280, searchProjects lower q)]" "clock ?L = t"
    by simp_all
  moreover have "rapid 280 (t # map fst rest)" using assms(2) evs by simp
  ultimately obtain h' L' where
    "foldl (inputAt lower) (Some (nextHandle L0), ?L) rest = (Some h', L')"
    and "pending L' = [(h', fst (last ((t, q) # rest)) + 280,
                              searchProjects lower (snd (last ((t, q) # rest))))]"
    and "clock L' = fst (last ((t, q) # rest))"
    and "page L' = page ?L" and "fired L' = fired ?L"
    using burst_from_armed [of ?L "nextHandle L0" t lower q rest] by blast
  then show ?thesis
    using step evs by simp
qed

lemma rapid_take: "rapid d ts \<Longrightarrow> rapid d (take k ts)"
proof (induction d ts arbitrary: k rule: rapid.induct)
  case (1 d)
  then show ?case by simp
next
  case (2 d t)
  then show ?case by (cases k) simp_all
next
  case (3 d t u ts)
  show ?case
  proof (cases k)
    case 0
    then show ?thesis by simp
  next
    case (Suc j)
    from "3.prems" have "rapid d (take j (u # ts))" by (simp add: "3.IH")
    with "3.prems" Suc show ?thesis by (cases j) simp_all
  qed
qed

lemma last_take_nth: "0 < k \<Longrightarrow> k \<le> length xs \<Longrightarrow> last (take k xs) = xs ! (k - 1)"
  by (cases k) (simp_all add: take_Suc_conv_app_nth)

text \<open>
  Claim C6. Take a burst of calls of the debounced search, each less than 280 ms after
  the one before, starting when no timer of the search is pending. After each call of
  the burst nothing has run and exactly one timer is pending, set by that call and due
  280 ms after it: the call has cancelled the timer of the call before. After the last
  call nothing runs before 280 ms have passed since it, and once they have passed
  \<open>searchProjects\<close> has run exactly once, with the argument of the last call.
\<close>

theorem debounce_burst:
  assumes "evs \<noteq> []" and "rapid 280 (map fst evs)" and "pending L0 = []"
    and "clock L0 \<le> fst (hd evs)"
  shows "let L = snd (foldl (inputAt lower) (tm0, L0) evs);
             Sk = foldl (inputAt lower) (tm0, L0) (take k evs);
             tN = fst (last evs);
             qN = snd (last evs)
         in (0 < k \<and> k \<le> length evs \<longrightarrow>
               page (snd Sk) = page L0 \<and> fired (snd Sk) = fired L0
               \<and> (\<exists>h. fst Sk = Some h
                     \<and> pending (snd Sk) = [(h, fst (evs ! (k - 1)) + 280,
                                             searchProjects lower (snd (evs ! (k - 1))))]))
            \<and> (T < tN + 280 \<longrightarrow>
                 page (advanceTo T L) = page L0 \<and> fired (advanceTo T L) = fired L0)
            \<and> (tN + 280 \<le> T \<longrightarrow>
                 page (advanceTo T L) = searchProjects lower qN (page L0)
                 \<and> pending (advanceTo T L) = []
                 \<and> (\<exists>h. fired (advanceTo T L) = fired L0 @ [(h, tN + 280)]))"
proof -
  have prefix: "page (snd (foldl (inputAt lower) (tm0, L0) (take k evs))) = page L0
      \<and> fired (snd (foldl (inputAt lower) (tm0, L0) (take k evs))) = fired L0
      \<and> (\<exists>h. fst (foldl (inputAt lower) (tm0, L0) (take k evs)) = Some h
            \<and> pending (snd (foldl (inputAt lower) (tm0, L0) (take k evs)))
                = [(h, fst (evs ! (k - 1)) + 280, searchProjects lower (snd (evs ! (k - 1))))])"
    if k: "0 < k" "k \<le> length evs"
  proof -
    from k assms(1) have ne: "take k evs \<noteq> []" by (cases k) auto
    have r: "rapid 280 (map fst (take k evs))"
      using rapid_take [OF assms(2), of k] by (simp add: take_map)
    have c: "clock L0 \<le> fst (hd (take k evs))"
      using assms(4) k(1) by (cases k; cases evs) simp_all
    from burst_armed [OF ne r assms(3) c, of lower tm0] last_take_nth [OF k]
    show ?thesis by auto
  qed
  obtain h L where run: "foldl (inputAt lower) (tm0, L0) evs = (Some h, L)"
    and pend: "pending L = [(h, fst (last evs) + 280, searchProjects lower (snd (last evs)))]"
    and same: "page L = page L0" "fired L = fired L0"
    using burst_armed [OF assms, of lower tm0] by blast
  have early: "page (advanceTo T L) = page L0 \<and> fired (advanceTo T L) = fired L0"
    if "T < fst (last evs) + 280"
  proof -
    have "advanceTo T L = L\<lparr>clock := max (clock L) T\<rparr>"
      using pend that by (intro advanceTo_idle) simp
    with same show ?thesis by simp
  qed
  have late: "page (advanceTo T L) = searchProjects lower (snd (last evs)) (page L0)
      \<and> pending (advanceTo T L) = []
      \<and> (\<exists>h. fired (advanceTo T L) = fired L0 @ [(h, fst (last evs) + 280)])"
    if "fst (last evs) + 280 \<le> T"
    using advanceTo_single_due [OF pend that] same by simp
  show ?thesis
    unfolding Let_def run snd_conv
    using prefix early late by blast
qed


theorem debounce_burst_witness:
  "(let g0 = \<lparr>currentCategory = js ''all'', searchInput = Some [], grid = Some projects,
               noResults = Some False\<rparr>;
        L0 = \<lparr>clock = 0, nextHandle = 1, pending = [], page = g0, fired = []\<rparr>;
        evs = [(0, js ''a''), (100, js ''ap''), (250, js ''api'')];
        L = snd (foldl (inputAt toLowerLatin1) (None, L0) evs)
    in evs \<noteq> [] \<and> rapid 280 (map fst evs) \<and> pending L0 = [] \<and> clock L0 \<le> fst (hd evs)
       \<and> page (advanceTo 529 L) = g0 \<and> fired (advanceTo 529 L) = []
       \<and> page (advanceTo 530 L) = searchProjects toLowerLatin1 (js ''api'') g0
       \<and> pending (advanceTo 530 L) = []
       \<and> fired (advanceTo 530 L) = [(3, 530)])"
proof -
  let ?G = "\<lparr>currentCategory = js ''all'', searchInput = Some [], grid = Some projects,
               noResults = Some False\<rparr>"
  let ?I = "\<lparr>clock = 0, nextHandle = 1, pending = [], page = ?G, fired = []\<rparr>"
  let ?evs = "[(0 :: nat, js ''a''), (100, js ''ap''), (250, js ''api'')]"
  let ?L = "snd (foldl (inputAt toLowerLatin1) (None, ?I) ?evs)"
  have h1: "?evs \<noteq> []" and h2: "rapid 280 (map fst ?evs)" and h3: "pending ?I = []"
    and h4: "clock ?I \<le> fst (hd ?evs)"
    by simp_all
  have early: "page (advanceTo 529 ?L) = ?G \<and> fired (advanceTo 529 ?L) = []"
    using debounce_burst [OF h1 h2 h3 h4, of toLowerLatin1 None 3 529]
    by (simp add: Let_def)
  have late: "page (advanceTo 530 ?L) = searchProjects toLowerLatin1 (js ''api'') ?G
      \<and> pending (advanceTo 530 ?L) = []"
    using debounce_burst [OF h1 h2 h3 h4, of toLowerLatin1 None 3 530]
    by (simp add: Let_def)
  have log: "fired (advanceTo 530 ?L) = [(3, 530)]"
    by (simp add: inputAt_def debouncedSearch_def debounce_def advanceTo_def clearTimeout_def
        setTimeout_def runTimer_def Let_def)
  from h1 h2 h3 h4 early late log show ?thesis
    unfolding Let_def by blast
qed

end
